theory Spec2Isabelle
  imports Complex_Main "HOL-Library.Word"
begin

unbundle bit_operations_syntax

section \<open>The database as the routers see it\<close>

text \<open>
  The three patterns of \<^verbatim>\<open>src/app\<close> talk to PostgreSQL through psycopg2 connections.
  A connection is identified by the endpoint it was opened to.  Every statement a
  router sends is appended to a trace of events, so that "which node was asked what"
  is a property of the model.  What the servers answer is not decided by the routers:
  it is a parameter \<open>srv\<close> of every operation (the state of the cluster at the
  time of the call).  A failing statement (psycopg2 raises) is the answer \<open>Inl e\<close>.
\<close>

datatype error = Psycopg2Error | ZeroDivisionError | KeyError

record conn =
  conn_host :: string
  conn_port :: nat

type_synonym row = "int \<times> string \<times> int"

datatype query =
    InsertReturningId string
  | SelectCurrentWalLsn
  | SelectLastWalReplayLsn
  | SelectLe string "string option"
  | SelectLatest int
  | SelectLike string int

datatype event = Connect conn | Execute conn query | Commit conn | Close conn

record server =
  connect_result :: "string \<Rightarrow> nat \<Rightarrow> error option"
  insert_id :: "conn \<Rightarrow> string \<Rightarrow> error + int"
  commit_result :: "conn \<Rightarrow> error option"
  current_wal_lsn :: "conn \<Rightarrow> error + string"
  last_wal_replay_lsn :: "conn \<Rightarrow> error + string option"
  expression_error :: "conn \<Rightarrow> error option"
  select_rows :: "conn \<Rightarrow> query \<Rightarrow> error + row list"

subsection \<open>Two orders on log positions\<close>

text \<open>
  psycopg2 has no adapter for \<^verbatim>\<open>pg_lsn\<close>: a position comes back as a Python
  \<^verbatim>\<open>str\<close> such as \<^verbatim>\<open>0/3000060\<close>, and a \<^verbatim>\<open>str\<close> parameter is sent as a
  quoted literal of unknown type.  In \<^verbatim>\<open>SELECT %s <= %s\<close> both operands are such
  literals, which PostgreSQL resolves to the operator on \<^verbatim>\<open>text\<close>.  On the
  characters of a position (\<^verbatim>\<open>/\<close>, digits, \<^verbatim>\<open>A\<close> to \<^verbatim>\<open>F\<close>) that order is
  the character-wise one, \<open>text_le\<close>.  A Python \<^verbatim>\<open>None\<close> is sent as
  \<^verbatim>\<open>NULL\<close>, and the comparison then yields \<^verbatim>\<open>NULL\<close>, read back as \<^verbatim>\<open>None\<close>.
\<close>

fun text_le :: "string \<Rightarrow> string \<Rightarrow> bool" where
  "text_le [] ys = True"
| "text_le (x # xs) [] = False"
| "text_le (x # xs) (y # ys) =
     (if x = y then text_le xs ys else (of_char x :: nat) < of_char y)"

definition pg_select_le ::
  "server \<Rightarrow> conn \<Rightarrow> string \<Rightarrow> string option \<Rightarrow> error + bool option" where
  "pg_select_le srv c a b =
     (case expression_error srv c of
        Some e \<Rightarrow> Inl e
      | None \<Rightarrow> Inr (case b of None \<Rightarrow> None | Some b' \<Rightarrow> Some (text_le a b')))"

text \<open>
  The log's own order is the one of \<^verbatim>\<open>pg_lsn\<close>: the token is two hexadecimal
  numbers of one to eight digits around a slash, and stands for the 64-bit number
  \<open>hi * 2^32 + lo\<close>.
\<close>

definition hex_digit :: "char \<Rightarrow> nat option" where
  "hex_digit c =
     (let n = (of_char c :: nat) in
      if 48 \<le> n \<and> n \<le> 57 then Some (n - 48)
      else if 65 \<le> n \<and> n \<le> 70 then Some (n - 55)
      else if 97 \<le> n \<and> n \<le> 102 then Some (n - 87)
      else None)"

fun hex_value :: "nat \<Rightarrow> string \<Rightarrow> nat option" where
  "hex_value acc [] = Some acc"
| "hex_value acc (c # cs) =
     (case hex_digit c of None \<Rightarrow> None | Some d \<Rightarrow> hex_value (16 * acc + d) cs)"

definition hex_part :: "string \<Rightarrow> nat option" where
  "hex_part s = (if s = [] \<or> 8 < length s then None else hex_value 0 s)"

definition lsn_value :: "string \<Rightarrow> nat option" where
  "lsn_value s =
     (let hi = takeWhile (\<lambda>c. c \<noteq> CHR ''/'') s;
          rest = dropWhile (\<lambda>c. c \<noteq> CHR ''/'') s
      in case rest of
           [] \<Rightarrow> None
         | _ # lo \<Rightarrow>
             (case (hex_part hi, hex_part lo) of
                (Some h, Some l) \<Rightarrow> Some (h * 2 ^ 32 + l)
              | _ \<Rightarrow> None))"

definition lsn_le :: "string \<Rightarrow> string \<Rightarrow> bool" where
  "lsn_le a b =
     (case (lsn_value a, lsn_value b) of
        (Some x, Some y) \<Rightarrow> x \<le> y
      | _ \<Rightarrow> False)"

section \<open>Pattern 2: routing on the log position\<close>

record LSNTracker =
  last_write_lsn :: "string option"

definition LSNTracker_init :: LSNTracker where
  "LSNTracker_init = \<lparr>last_write_lsn = None\<rparr>"

definition record_write_lsn ::
  "server \<Rightarrow> LSNTracker \<Rightarrow> conn \<Rightarrow> event list \<Rightarrow> (error + unit) \<times> LSNTracker \<times> event list" where
  "record_write_lsn srv t c tr =
     (let tr1 = tr @ [Execute c SelectCurrentWalLsn] in
      case current_wal_lsn srv c of
        Inl e \<Rightarrow> (Inl e, t, tr1)
      | Inr l \<Rightarrow> (Inr (), t\<lparr>last_write_lsn := Some l\<rparr>, tr1))"

text \<open>
  \<^verbatim>\<open>replica_is_caught_up\<close> returns what the comparison statement returned: a
  Python \<^verbatim>\<open>bool\<close>, or \<^verbatim>\<open>None\<close> when the replica reported no position.  The
  test \<^verbatim>\<open>not self.last_write_lsn\<close> holds for \<^verbatim>\<open>None\<close> and for the empty string.
\<close>

definition replica_is_caught_up ::
  "server \<Rightarrow> LSNTracker \<Rightarrow> conn \<Rightarrow> event list \<Rightarrow> (error + bool option) \<times> event list" where
  "replica_is_caught_up srv t rc tr =
     (case last_write_lsn t of
        None \<Rightarrow> (Inr (Some True), tr)
      | Some w \<Rightarrow>
          if w = [] then (Inr (Some True), tr)
          else
            (let tr1 = tr @ [Execute rc SelectLastWalReplayLsn] in
             case last_wal_replay_lsn srv rc of
               Inl e \<Rightarrow> (Inl e, tr1)
             | Inr replica_lsn \<Rightarrow>
                 (let tr2 = tr1 @ [Execute rc (SelectLe w replica_lsn)] in
                  case pg_select_le srv rc w replica_lsn of
                    Inl e \<Rightarrow> (Inl e, tr2)
                  | Inr is_caught_up \<Rightarrow> (Inr is_caught_up, tr2))))"

record client_conns =
  primary_conn :: conn
  replica_conn :: conn

record SmartDatabaseClient = client_conns +
  lsn_tracker :: LSNTracker

definition SmartDatabaseClient_init :: SmartDatabaseClient where
  "SmartDatabaseClient_init =
     \<lparr>primary_conn = \<lparr>conn_host = ''localhost'', conn_port = 5432\<rparr>,
      replica_conn = \<lparr>conn_host = ''localhost'', conn_port = 5433\<rparr>,
      lsn_tracker = LSNTracker_init\<rparr>"

definition fetch_latest ::
  "server \<Rightarrow> conn \<Rightarrow> int \<Rightarrow> event list \<Rightarrow> (error + row list) \<times> event list" where
  "fetch_latest srv c limit tr =
     (select_rows srv c (SelectLatest limit), tr @ [Execute c (SelectLatest limit)])"

definition SmartDatabaseClient_write_data ::
  "server \<Rightarrow> SmartDatabaseClient \<Rightarrow> string \<Rightarrow> event list
     \<Rightarrow> (error + int) \<times> SmartDatabaseClient \<times> event list" where
  "SmartDatabaseClient_write_data srv c data tr =
     (let p = primary_conn c; tr1 = tr @ [Execute p (InsertReturningId data)] in
      case insert_id srv p data of
        Inl e \<Rightarrow> (Inl e, c, tr1)
      | Inr record_id \<Rightarrow>
          (let tr2 = tr1 @ [Commit p] in
           case commit_result srv p of
             Some e \<Rightarrow> (Inl e, c, tr2)
           | None \<Rightarrow>
               (case record_write_lsn srv (lsn_tracker c) p tr2 of
                  (Inl e, t', tr3) \<Rightarrow> (Inl e, c\<lparr>lsn_tracker := t'\<rparr>, tr3)
                | (Inr u, t', tr3) \<Rightarrow> (Inr record_id, c\<lparr>lsn_tracker := t'\<rparr>, tr3))))"

text \<open>
  In \<^verbatim>\<open>prefer_replica and self.lsn_tracker.replica_is_caught_up(...)\<close> the right
  operand is evaluated only when \<^verbatim>\<open>prefer_replica\<close> is true, and the branch is
  taken when its value is truthy (\<^verbatim>\<open>None\<close> is not).
\<close>

definition SmartDatabaseClient_read_data ::
  "server \<Rightarrow> SmartDatabaseClient \<Rightarrow> int \<Rightarrow> bool \<Rightarrow> event list
     \<Rightarrow> (error + row list) \<times> SmartDatabaseClient \<times> event list" where
  "SmartDatabaseClient_read_data srv c limit prefer_replica tr =
     (if prefer_replica then
        (case replica_is_caught_up srv (lsn_tracker c) (replica_conn c) tr of
           (Inl e, tr1) \<Rightarrow> (Inl e, c, tr1)
         | (Inr v, tr1) \<Rightarrow>
             (let target = (if v = Some True then replica_conn c else primary_conn c);
                  (res, tr2) = fetch_latest srv target limit tr1
              in (res, c, tr2)))
      else
        (let (res, tr2) = fetch_latest srv (primary_conn c) limit tr
         in (res, c, tr2)))"

section \<open>Pattern 1: routing on the time since the last write\<close>

text \<open>
  A \<^verbatim>\<open>datetime\<close> is a count of microseconds, a \<^verbatim>\<open>timedelta\<close> their difference.
  \<^verbatim>\<open>total_seconds()\<close> divides by \<open>10^6\<close>; the quotient is taken exactly here.
  Python rounds it to a double, which is monotone and leaves the integer threshold
  fixed, so the comparison with the threshold is the same.  The reading of the clock
  (\<^verbatim>\<open>datetime.now()\<close>) is the parameter \<open>now\<close>.
\<close>

record SessionTracker =
  last_write_time :: "int option"
  write_threshold_seconds :: int

definition SessionTracker_init :: SessionTracker where
  "SessionTracker_init = \<lparr>last_write_time = None, write_threshold_seconds = 5\<rparr>"

definition record_write :: "SessionTracker \<Rightarrow> int \<Rightarrow> SessionTracker" where
  "record_write s now = s\<lparr>last_write_time := Some now\<rparr>"

definition total_seconds :: "int \<Rightarrow> real" where
  "total_seconds us = real_of_int us / 1000000"

definition should_read_from_primary :: "SessionTracker \<Rightarrow> int \<Rightarrow> bool" where
  "should_read_from_primary s now =
     (case last_write_time s of
        None \<Rightarrow> False
      | Some w \<Rightarrow>
          (let elapsed = total_seconds (now - w)
           in elapsed < real_of_int (write_threshold_seconds s)))"

record DatabaseClient = client_conns +
  session :: SessionTracker

definition DatabaseClient_init :: DatabaseClient where
  "DatabaseClient_init =
     \<lparr>primary_conn = \<lparr>conn_host = ''localhost'', conn_port = 5432\<rparr>,
      replica_conn = \<lparr>conn_host = ''localhost'', conn_port = 5433\<rparr>,
      session = SessionTracker_init\<rparr>"

definition DatabaseClient_write_data ::
  "server \<Rightarrow> DatabaseClient \<Rightarrow> string \<Rightarrow> int \<Rightarrow> event list
     \<Rightarrow> (error + int) \<times> DatabaseClient \<times> event list" where
  "DatabaseClient_write_data srv c data now tr =
     (let p = primary_conn c; tr1 = tr @ [Execute p (InsertReturningId data)] in
      case insert_id srv p data of
        Inl e \<Rightarrow> (Inl e, c, tr1)
      | Inr record_id \<Rightarrow>
          (let tr2 = tr1 @ [Commit p] in
           case commit_result srv p of
             Some e \<Rightarrow> (Inl e, c, tr2)
           | None \<Rightarrow> (Inr record_id, c\<lparr>session := record_write (session c) now\<rparr>, tr2)))"

definition DatabaseClient_read_data ::
  "server \<Rightarrow> DatabaseClient \<Rightarrow> int \<Rightarrow> int \<Rightarrow> event list
     \<Rightarrow> (error + row list) \<times> DatabaseClient \<times> event list" where
  "DatabaseClient_read_data srv c limit now tr =
     (let target = (if should_read_from_primary (session c) now
                    then primary_conn c else replica_conn c);
          (res, tr1) = fetch_latest srv target limit tr
      in (res, c, tr1))"

section \<open>Pattern 3: sticky routing on a hash of the user\<close>

subsection \<open>MD5\<close>

text \<open>
  \<^verbatim>\<open>hashlib.md5\<close> is the digest of RFC 1321: the message is padded to whole
  64-byte blocks, each block is sixteen little-endian 32-bit words and goes through
  sixty-four steps.  \<^verbatim>\<open>int(hexdigest, 16)\<close> reads the sixteen bytes of the digest as
  one big-endian number.  A user id stands for the bytes of its UTF-8 encoding.
\<close>

type_synonym md5_state = "32 word \<times> 32 word \<times> 32 word \<times> 32 word"

definition md5_K :: "32 word list" where
  "md5_K =
    [0xd76aa478, 0xe8c7b756, 0x242070db, 0xc1bdceee, 0xf57c0faf, 0x4787c62a, 0xa8304613, 0xfd469501,
     0x698098d8, 0x8b44f7af, 0xffff5bb1, 0x895cd7be, 0x6b901122, 0xfd987193, 0xa679438e, 0x49b40821,
     0xf61e2562, 0xc040b340, 0x265e5a51, 0xe9b6c7aa, 0xd62f105d, 0x02441453, 0xd8a1e681, 0xe7d3fbc8,
     0x21e1cde6, 0xc33707d6, 0xf4d50d87, 0x455a14ed, 0xa9e3e905, 0xfcefa3f8, 0x676f02d9, 0x8d2a4c8a,
     0xfffa3942, 0x8771f681, 0x6d9d6122, 0xfde5380c, 0xa4beea44, 0x4bdecfa9, 0xf6bb4b60, 0xbebfbc70,
     0x289b7ec6, 0xeaa127fa, 0xd4ef3085, 0x04881d05, 0xd9d4d039, 0xe6db99e5, 0x1fa27cf8, 0xc4ac5665,
     0xf4292244, 0x432aff97, 0xab9423a7, 0xfc93a039, 0x655b59c3, 0x8f0ccc92, 0xffeff47d, 0x85845dd1,
     0x6fa87e4f, 0xfe2ce6e0, 0xa3014314, 0x4e0811a1, 0xf7537e82, 0xbd3af235, 0x2ad7d2bb, 0xeb86d391]"

definition md5_s :: "nat list" where
  "md5_s =
    [7, 12, 17, 22, 7, 12, 17, 22, 7, 12, 17, 22, 7, 12, 17, 22,
     5, 9, 14, 20, 5, 9, 14, 20, 5, 9, 14, 20, 5, 9, 14, 20,
     4, 11, 16, 23, 4, 11, 16, 23, 4, 11, 16, 23, 4, 11, 16, 23,
     6, 10, 15, 21, 6, 10, 15, 21, 6, 10, 15, 21, 6, 10, 15, 21]"

definition rotl32 :: "32 word \<Rightarrow> nat \<Rightarrow> 32 word" where
  "rotl32 x n = push_bit n x OR drop_bit (32 - n) x"

definition md5_mix :: "nat \<Rightarrow> 32 word \<Rightarrow> 32 word \<Rightarrow> 32 word \<Rightarrow> 32 word" where
  "md5_mix i b c d =
     (if i < 16 then (b AND c) OR (NOT b AND d)
      else if i < 32 then (d AND b) OR (NOT d AND c)
      else if i < 48 then b XOR c XOR d
      else c XOR (b OR NOT d))"

definition md5_index :: "nat \<Rightarrow> nat" where
  "md5_index i =
     (if i < 16 then i
      else if i < 32 then (5 * i + 1) mod 16
      else if i < 48 then (3 * i + 5) mod 16
      else (7 * i) mod 16)"

definition md5_step :: "32 word list \<Rightarrow> md5_state \<Rightarrow> nat \<Rightarrow> md5_state" where
  "md5_step m st i =
     (case st of (a, b, c, d) \<Rightarrow>
        (d, b + rotl32 (a + md5_mix i b c d + md5_K ! i + m ! md5_index i) (md5_s ! i), b, c))"

definition md5_block :: "md5_state \<Rightarrow> 32 word list \<Rightarrow> md5_state" where
  "md5_block st m =
     (case st of (a0, b0, c0, d0) \<Rightarrow>
        (case foldl (md5_step m) st [0..<64] of (a, b, c, d) \<Rightarrow>
           (a0 + a, b0 + b, c0 + c, d0 + d)))"

definition le_bytes :: "nat \<Rightarrow> int \<Rightarrow> int list" where
  "le_bytes k n = map (\<lambda>i. (n div 256 ^ i) mod 256) [0..<k]"

definition md5_pad :: "int list \<Rightarrow> int list" where
  "md5_pad bs =
     bs @ [128] @ replicate ((119 - length bs mod 64) mod 64) 0
        @ le_bytes 8 ((8 * int (length bs)) mod 2 ^ 64)"

fun le_words :: "int list \<Rightarrow> 32 word list" where
  "le_words (b0 # b1 # b2 # b3 # bs) =
     word_of_int (b0 + 256 * b1 + 65536 * b2 + 16777216 * b3) # le_words bs"
| "le_words bs = []"

fun md5_blocks :: "md5_state \<Rightarrow> 32 word list \<Rightarrow> md5_state" where
  "md5_blocks st ws = (if length ws < 16 then st else md5_blocks (md5_block st (take 16 ws)) (drop 16 ws))"

definition md5_digest :: "string \<Rightarrow> int list" where
  "md5_digest s =
     (case md5_blocks (0x67452301, 0xefcdab89, 0x98badcfe, 0x10325476)
             (le_words (md5_pad (map of_char s))) of
        (a, b, c, d) \<Rightarrow> concat (map (\<lambda>w. le_bytes 4 (uint w)) [a, b, c, d]))"

definition md5_int :: "string \<Rightarrow> int" where
  "md5_int s = foldl (\<lambda>acc b. 256 * acc + b) 0 (md5_digest s)"

subsection \<open>The router\<close>

text \<open>
  A configuration is a Python dictionary with the keys \<^verbatim>\<open>host\<close> and \<^verbatim>\<open>port\<close>;
  the replicas carry a \<^verbatim>\<open>name\<close> as well, the primary does not.  The dictionary
  \<^verbatim>\<open>self.connections\<close> keeps its insertion order, which \<^verbatim>\<open>close_all\<close> follows:
  it is an association list.
\<close>

record db_config =
  host :: string
  port :: nat
  name :: "string option"

record StickySessionRouter =
  replicas :: "db_config list"
  primary :: db_config
  connections :: "(string \<times> conn) list"

definition StickySessionRouter_init :: StickySessionRouter where
  "StickySessionRouter_init =
     \<lparr>replicas =
        [\<lparr>host = ''localhost'', port = 5433, name = Some ''replica1''\<rparr>,
         \<lparr>host = ''localhost'', port = 5434, name = Some ''replica2''\<rparr>],
      primary = \<lparr>host = ''localhost'', port = 5432, name = None\<rparr>,
      connections = []\<rparr>"

text \<open>
  The hash is computed first; an empty list of replicas then makes the modulo raise
  \<^verbatim>\<open>ZeroDivisionError\<close>.
\<close>

definition get_replica_for_user :: "StickySessionRouter \<Rightarrow> string \<Rightarrow> error + db_config" where
  "get_replica_for_user r user_id =
     (let hash_value = md5_int user_id in
      if length (replicas r) = 0 then Inl ZeroDivisionError
      else
        (let replica_index = hash_value mod int (length (replicas r))
         in Inr (replicas r ! nat replica_index)))"

fun str_nat :: "nat \<Rightarrow> string" where
  "str_nat n =
     (if n < 10 then [char_of (48 + n)]
      else str_nat (n div 10) @ [char_of (48 + n mod 10)])"

declare str_nat.simps [simp del]

definition endpoint_key :: "string \<Rightarrow> nat \<Rightarrow> string" where
  "endpoint_key h p = h @ '':'' @ str_nat p"

definition endpoint :: "db_config \<Rightarrow> conn" where
  "endpoint cfg = \<lparr>conn_host = host cfg, conn_port = port cfg\<rparr>"

definition get_connection ::
  "server \<Rightarrow> StickySessionRouter \<Rightarrow> db_config \<Rightarrow> event list
     \<Rightarrow> (error + conn) \<times> StickySessionRouter \<times> event list" where
  "get_connection srv r cfg tr =
     (let key = endpoint_key (host cfg) (port cfg) in
      case map_of (connections r) key of
        Some c \<Rightarrow> (Inr c, r, tr)
      | None \<Rightarrow>
          (let tr1 = tr @ [Connect (endpoint cfg)] in
           case connect_result srv (host cfg) (port cfg) of
             Some e \<Rightarrow> (Inl e, r, tr1)
           | None \<Rightarrow>
               (Inr (endpoint cfg),
                r\<lparr>connections := connections r @ [(key, endpoint cfg)]\<rparr>, tr1)))"

definition user_data :: "string \<Rightarrow> string \<Rightarrow> string" where
  "user_data user_id data = ''User-'' @ user_id @ '': '' @ data"

definition user_pattern :: "string \<Rightarrow> string" where
  "user_pattern user_id = ''User-'' @ user_id @ '':%''"

definition write_for_user ::
  "server \<Rightarrow> StickySessionRouter \<Rightarrow> string \<Rightarrow> string \<Rightarrow> event list
     \<Rightarrow> (error + int) \<times> StickySessionRouter \<times> event list" where
  "write_for_user srv r user_id data tr =
     (case get_connection srv r (primary r) tr of
        (Inl e, r1, tr1) \<Rightarrow> (Inl e, r1, tr1)
      | (Inr c, r1, tr1) \<Rightarrow>
          (let q = InsertReturningId (user_data user_id data);
               tr2 = tr1 @ [Execute c q] in
           case insert_id srv c (user_data user_id data) of
             Inl e \<Rightarrow> (Inl e, r1, tr2)
           | Inr record_id \<Rightarrow>
               (let tr3 = tr2 @ [Commit c] in
                case commit_result srv c of
                  Some e \<Rightarrow> (Inl e, r1, tr3)
                | None \<Rightarrow> (Inr record_id, r1, tr3))))"

text \<open>
  After the rows are fetched, \<^verbatim>\<open>read_for_user\<close> prints \<^verbatim>\<open>replica['name']\<close>,
  which raises \<^verbatim>\<open>KeyError\<close> for a configuration without that key.
\<close>

definition read_for_user ::
  "server \<Rightarrow> StickySessionRouter \<Rightarrow> string \<Rightarrow> int \<Rightarrow> event list
     \<Rightarrow> (error + row list) \<times> StickySessionRouter \<times> event list" where
  "read_for_user srv r user_id limit tr =
     (case get_replica_for_user r user_id of
        Inl e \<Rightarrow> (Inl e, r, tr)
      | Inr replica \<Rightarrow>
          (case get_connection srv r replica tr of
             (Inl e, r1, tr1) \<Rightarrow> (Inl e, r1, tr1)
           | (Inr c, r1, tr1) \<Rightarrow>
               (let q = SelectLike (user_pattern user_id) limit;
                    tr2 = tr1 @ [Execute c q] in
                case select_rows srv c q of
                  Inl e \<Rightarrow> (Inl e, r1, tr2)
                | Inr results \<Rightarrow>
                    (case name replica of
                       None \<Rightarrow> (Inl KeyError, r1, tr2)
                     | Some n \<Rightarrow> (Inr results, r1, tr2)))))"

definition close_all :: "StickySessionRouter \<Rightarrow> event list \<Rightarrow> StickySessionRouter \<times> event list" where
  "close_all r tr = (r, tr @ map (\<lambda>kc. Close (snd kc)) (connections r))"

subsection \<open>The filter of the read\<close>

text \<open>
  \<^verbatim>\<open>LIKE\<close> as PostgreSQL matches it: \<^verbatim>\<open>%\<close> stands for any run of
  characters, \<^verbatim>\<open>_\<close> for any one character, and a backslash makes the character
  after it stand for itself.  (A pattern that ends in a lone backslash is an error
  in PostgreSQL; the patterns of the read end in \<^verbatim>\<open>:%\<close>.)
\<close>

fun pg_like :: "string \<Rightarrow> string \<Rightarrow> bool" where
  "pg_like [] t = (t = [])"
| "pg_like (c # p) t =
     (if c = CHR ''%'' then
        (pg_like p t \<or> (case t of [] \<Rightarrow> False | x # t' \<Rightarrow> pg_like (c # p) t'))
      else if c = CHR ''_'' then
        (case t of [] \<Rightarrow> False | x # t' \<Rightarrow> pg_like p t')
      else if c = CHR 0x5C then
        (case p of
           [] \<Rightarrow> False
         | c' # p' \<Rightarrow> (case t of [] \<Rightarrow> False | x # t' \<Rightarrow> x = c' \<and> pg_like p' t'))
      else
        (case t of [] \<Rightarrow> False | x # t' \<Rightarrow> x = c \<and> pg_like p t'))"

section \<open>What the claims speak about\<close>

text \<open>
  The events of a trace that went to another connection than \<open>p\<close>.
\<close>

fun event_conn :: "event \<Rightarrow> conn" where
  "event_conn (Connect c) = c"
| "event_conn (Execute c q) = c"
| "event_conn (Commit c) = c"
| "event_conn (Close c) = c"

definition elsewhere :: "conn \<Rightarrow> event list \<Rightarrow> event list" where
  "elsewhere p tr = filter (\<lambda>e. event_conn e \<noteq> p) tr"

text \<open>
  The dictionary of connections is filled by \<^verbatim>\<open>get_connection\<close> only, which files
  a connection under the key of the endpoint it opened it to.
\<close>

definition cached_ok :: "StickySessionRouter \<Rightarrow> bool" where
  "cached_ok r =
     list_all (\<lambda>kc. fst kc = endpoint_key (conn_host (snd kc)) (conn_port (snd kc)))
       (connections r)"

text \<open>
  A caller of the sticky router: any sequence of calls of its methods, each against
  the cluster as it is at that moment.  A call that raises leaves the router as it
  was when the exception left it.
\<close>

datatype router_call =
    GetReplica string
  | WriteForUser string string
  | ReadForUser string int
  | CloseAll

fun call ::
  "server \<times> router_call \<Rightarrow> StickySessionRouter \<times> event list
     \<Rightarrow> StickySessionRouter \<times> event list" where
  "call (srv, GetReplica u) (r, tr) = (r, tr)"
| "call (srv, WriteForUser u d) (r, tr) = snd (write_for_user srv r u d tr)"
| "call (srv, ReadForUser u limit) (r, tr) = snd (read_for_user srv r u limit tr)"
| "call (srv, CloseAll) (r, tr) = close_all r tr"

definition calls ::
  "(server \<times> router_call) list \<Rightarrow> StickySessionRouter \<times> event list
     \<Rightarrow> StickySessionRouter \<times> event list" where
  "calls cs st = foldl (\<lambda>s c. call c s) st cs"

text \<open>
  A cluster for concrete runs: the nodes in \<open>down\<close> refuse every statement, the
  primary is at position \<open>cur\<close> and the replicas have replayed up to \<open>rep\<close>.
\<close>

definition cluster :: "(conn \<Rightarrow> bool) \<Rightarrow> string \<Rightarrow> string option \<Rightarrow> server" where
  "cluster down cur rep =
     \<lparr>connect_result =
        (\<lambda>h p. if down \<lparr>conn_host = h, conn_port = p\<rparr> then Some Psycopg2Error else None),
      insert_id = (\<lambda>c d. if down c then Inl Psycopg2Error else Inr 1),
      commit_result = (\<lambda>c. if down c then Some Psycopg2Error else None),
      current_wal_lsn = (\<lambda>c. if down c then Inl Psycopg2Error else Inr cur),
      last_wal_replay_lsn = (\<lambda>c. if down c then Inl Psycopg2Error else Inr rep),
      expression_error = (\<lambda>c. if down c then Some Psycopg2Error else None),
      select_rows = (\<lambda>c q. if down c then Inl Psycopg2Error else Inr [])\<rparr>"

section \<open>Pattern 2: the check of the log position\<close>

lemma replica_is_caught_up_text:
  "w \<noteq> [] \<Longrightarrow> last_wal_replay_lsn srv rc = Inr (Some p) \<Longrightarrow> expression_error srv rc = None \<Longrightarrow>
   replica_is_caught_up srv \<lparr>last_write_lsn = Some w\<rparr> rc tr =
     (Inr (Some (text_le w p)),
      tr @ [Execute rc SelectLastWalReplayLsn, Execute rc (SelectLe w (Some p))])"
  by (simp add: replica_is_caught_up_def pg_select_le_def)

lemma lsn_value_high: "lsn_value ''10/A0000000'' = Some 71403831296"
  by (simp add: lsn_value_def hex_part_def hex_digit_def)

lemma lsn_value_low: "lsn_value ''F/A0000000'' = Some 67108864000"
  by (simp add: lsn_value_def hex_part_def hex_digit_def)

text \<open>
  Claim C1 says that \<^verbatim>\<open>replica_is_caught_up\<close> is true exactly when no write was
  recorded or the recorded position is at most the replica's in the order of the log.
  The code compares the two tokens as text.  Here the write is at \<^verbatim>\<open>10/A0000000\<close>
  and the replica has replayed up to \<^verbatim>\<open>F/A0000000\<close>, four gigabytes behind: the
  function answers \<^verbatim>\<open>True\<close>.
\<close>

theorem replica_is_caught_up_behind:
  "fst (replica_is_caught_up (cluster (\<lambda>c. False) ''10/A0000000'' (Some ''F/A0000000''))
          \<lparr>last_write_lsn = Some ''10/A0000000''\<rparr> (replica_conn SmartDatabaseClient_init) [])
     = Inr (Some True)
   \<and> \<not> lsn_le ''10/A0000000'' ''F/A0000000''"
  by (simp add: replica_is_caught_up_def pg_select_le_def cluster_def lsn_le_def
      lsn_value_high lsn_value_low)

text \<open>
  Claim C3 says that the comparison is made in the order of the log and never as a
  comparison of strings.  It is the comparison of strings: with the write at
  \<^verbatim>\<open>F/A0000000\<close> and the replica ahead of it at \<^verbatim>\<open>10/A0000000\<close>, the function
  answers \<^verbatim>\<open>False\<close>, as \<^verbatim>\<open>F\<close> sorts after \<^verbatim>\<open>1\<close>.
\<close>

theorem replica_is_caught_up_ahead:
  "fst (replica_is_caught_up (cluster (\<lambda>c. False) ''F/A0000000'' (Some ''10/A0000000''))
          \<lparr>last_write_lsn = Some ''F/A0000000''\<rparr> (replica_conn SmartDatabaseClient_init) [])
     = Inr (Some False)
   \<and> lsn_le ''F/A0000000'' ''10/A0000000''"
  by (simp add: replica_is_caught_up_def pg_select_le_def cluster_def lsn_le_def
      lsn_value_high lsn_value_low)

text \<open>
  Claim C2 says that a failing query for the replica's position makes
  \<^verbatim>\<open>replica_is_caught_up\<close> return \<^verbatim>\<open>False\<close>, so that the read goes to the primary.
  The code catches nothing: with a write recorded and the replica down, the check
  raises the error of psycopg2, and so does the read, which has then asked the primary
  nothing.
\<close>

theorem replica_down_raises:
  "fst (replica_is_caught_up
          (cluster (\<lambda>x. x = replica_conn SmartDatabaseClient_init) ''0/3000060'' None)
          \<lparr>last_write_lsn = Some ''0/3000060''\<rparr> (replica_conn SmartDatabaseClient_init) [])
     = Inl Psycopg2Error
   \<and> SmartDatabaseClient_read_data
        (cluster (\<lambda>x. x = replica_conn SmartDatabaseClient_init) ''0/3000060'' None)
        (SmartDatabaseClient_init\<lparr>lsn_tracker := \<lparr>last_write_lsn = Some ''0/3000060''\<rparr>\<rparr>) 5 True []
     = (Inl Psycopg2Error,
        SmartDatabaseClient_init\<lparr>lsn_tracker := \<lparr>last_write_lsn = Some ''0/3000060''\<rparr>\<rparr>,
        [Execute (replica_conn SmartDatabaseClient_init) SelectLastWalReplayLsn])"
  by (simp add: replica_is_caught_up_def SmartDatabaseClient_read_data_def cluster_def
      SmartDatabaseClient_init_def)

text \<open>
  Claim C2 as the code has it: when a write position is recorded and the query for
  the replica's position fails, \<^verbatim>\<open>replica_is_caught_up\<close> raises that error after
  that one statement (it returns neither \<^verbatim>\<open>True\<close> nor \<^verbatim>\<open>False\<close>), and a read
  that prefers the replica raises it too, having sent no select to either node and
  left the client as it was.
\<close>

theorem replica_is_caught_up_raises:
  assumes "last_write_lsn (lsn_tracker c) = Some w" and "w \<noteq> []"
    and "last_wal_replay_lsn srv (replica_conn c) = Inl e"
  shows "replica_is_caught_up srv (lsn_tracker c) (replica_conn c) tr =
           (Inl e, tr @ [Execute (replica_conn c) SelectLastWalReplayLsn])
     \<and> SmartDatabaseClient_read_data srv c limit True tr =
           (Inl e, c, tr @ [Execute (replica_conn c) SelectLastWalReplayLsn])"
  using assms by (simp add: replica_is_caught_up_def SmartDatabaseClient_read_data_def)

theorem replica_is_caught_up_raises_witness:
  "SmartDatabaseClient_read_data
        (cluster (\<lambda>x. x = replica_conn SmartDatabaseClient_init) ''0/3000060'' None)
        (SmartDatabaseClient_init\<lparr>lsn_tracker := \<lparr>last_write_lsn = Some ''0/3000060''\<rparr>\<rparr>) 3 True
        [Connect (primary_conn SmartDatabaseClient_init)]
     = (Inl Psycopg2Error,
        SmartDatabaseClient_init\<lparr>lsn_tracker := \<lparr>last_write_lsn = Some ''0/3000060''\<rparr>\<rparr>,
        [Connect (primary_conn SmartDatabaseClient_init),
         Execute (replica_conn SmartDatabaseClient_init) SelectLastWalReplayLsn])"
  using replica_is_caught_up_raises [of "SmartDatabaseClient_init\<lparr>lsn_tracker := \<lparr>last_write_lsn = Some ''0/3000060''\<rparr>\<rparr>"
      "''0/3000060''" "cluster (\<lambda>x. x = replica_conn SmartDatabaseClient_init) ''0/3000060'' None"
      Psycopg2Error "[Connect (primary_conn SmartDatabaseClient_init)]" 3]
  by (simp add: cluster_def SmartDatabaseClient_init_def)

text \<open>
  Claim C10: a read of the log-position router with \<^verbatim>\<open>prefer_replica=False\<close> sends
  one statement, the select, to the primary; the replica is not asked for its
  position.
\<close>

theorem read_data_primary_only:
  "SmartDatabaseClient_read_data srv c limit False tr =
     (select_rows srv (primary_conn c) (SelectLatest limit), c,
      tr @ [Execute (primary_conn c) (SelectLatest limit)])"
  by (simp add: SmartDatabaseClient_read_data_def fetch_latest_def)

section \<open>Reads leave the session as it is\<close>

text \<open>
  Claim C9: after a read, whatever its outcome, the time-based client has the
  \<^verbatim>\<open>SessionTracker\<close> it had and the log-position client the \<^verbatim>\<open>LSNTracker\<close> it had.
\<close>

theorem read_data_keeps_session:
  "session (fst (snd (DatabaseClient_read_data srv c limit now tr))) = session c
   \<and> lsn_tracker (fst (snd (SmartDatabaseClient_read_data srv' c' limit' prefer_replica tr')))
       = lsn_tracker c'"
  by (simp add: DatabaseClient_read_data_def SmartDatabaseClient_read_data_def
      fetch_latest_def Let_def split: prod.splits sum.splits)

section \<open>Pattern 1: the check of the elapsed time\<close>

text \<open>
  Claim C4: \<^verbatim>\<open>should_read_from_primary\<close> is true exactly when a write has been
  recorded and less than the threshold has passed since; the threshold of a new
  tracker is five seconds, no write is recorded in it, and recording a write keeps
  the threshold; the read then goes to the primary when the check is true and to the
  replica when it is false.  Times are in microseconds.
\<close>

theorem should_read_from_primary_iff:
  "should_read_from_primary s now =
     (\<exists>w. last_write_time s = Some w \<and> now - w < 1000000 * write_threshold_seconds s)
   \<and> write_threshold_seconds SessionTracker_init = 5
   \<and> last_write_time SessionTracker_init = None
   \<and> write_threshold_seconds (record_write s t) = write_threshold_seconds s
   \<and> last_write_time (record_write s t) = Some t
   \<and> snd (snd (DatabaseClient_read_data srv c limit now tr)) =
       tr @ [Execute (if should_read_from_primary (session c) now
                      then primary_conn c else replica_conn c) (SelectLatest limit)]"
proof -
  have "should_read_from_primary s now =
     (\<exists>w. last_write_time s = Some w \<and> now - w < 1000000 * write_threshold_seconds s)"
    by (auto simp: should_read_from_primary_def total_seconds_def field_simps
        split: option.splits)
  moreover have "snd (snd (DatabaseClient_read_data srv c limit now tr)) =
       tr @ [Execute (if should_read_from_primary (session c) now
                      then primary_conn c else replica_conn c) (SelectLatest limit)]"
    by (simp add: DatabaseClient_read_data_def fetch_latest_def Let_def)
  ultimately show ?thesis
    by (simp add: SessionTracker_init_def record_write_def)
qed

section \<open>Pattern 3: the sticky router\<close>

subsection \<open>The key of an endpoint determines it\<close>

lemma digit_char_inj:
  assumes "(k::nat) < 10" "j < 10" "(char_of (48 + k) :: char) = char_of (48 + j)"
  shows "k = j"
proof -
  have "(of_char (char_of (48 + k) :: char) :: nat) = of_char (char_of (48 + j) :: char)"
    using assms(3) by simp
  then have "(48 + k) mod 256 = (48 + j) mod 256"
    by (simp only: of_char_of)
  with assms(1,2) show ?thesis by simp
qed

lemma digit_char_not_colon:
  assumes "(k::nat) < 10"
  shows "(char_of (48 + k) :: char) \<noteq> CHR '':''"
proof
  assume "(char_of (48 + k) :: char) = CHR '':''"
  then have "(of_char (char_of (48 + k) :: char) :: nat) = of_char (CHR '':'')"
    by simp
  then have "(48 + k) mod 256 = 58"
    by (simp only: of_char_of) simp
  with assms show False by simp
qed

lemma str_nat_not_Nil: "str_nat n \<noteq> []"
  by (subst str_nat.simps) simp

lemma str_nat_no_colon: "CHR '':'' \<notin> set (str_nat n)"
proof (induction n rule: str_nat.induct)
  case (1 n)
  show ?case
  proof (cases "n < 10")
    case True
    then show ?thesis
      using digit_char_not_colon [of n] by (subst str_nat.simps) auto
  next
    case False
    then have "n mod 10 < 10" by simp
    then show ?thesis
      using 1 False digit_char_not_colon [of "n mod 10"] by (subst str_nat.simps) auto
  qed
qed

lemma str_nat_inj: "str_nat n = str_nat m \<Longrightarrow> n = m"
proof (induction n arbitrary: m rule: str_nat.induct)
  case (1 n)
  show ?case
  proof (cases "n < 10")
    case n: True
    show ?thesis
    proof (cases "m < 10")
      case True
      with n 1(2) show ?thesis
        using digit_char_inj [of n m]
        by (simp add: str_nat.simps [of n] str_nat.simps [of m])
    next
      case False
      with n 1(2) show ?thesis
        using str_nat_not_Nil [of "m div 10"]
        by (simp add: str_nat.simps [of n] str_nat.simps [of m])
    qed
  next
    case n: False
    show ?thesis
    proof (cases "m < 10")
      case True
      with n 1(2) show ?thesis
        using str_nat_not_Nil [of "n div 10"]
        by (simp add: str_nat.simps [of n] str_nat.simps [of m])
    next
      case False
      with n 1(2) have eq: "str_nat (n div 10) = str_nat (m div 10)"
        and d: "(char_of (48 + n mod 10) :: char) = char_of (48 + m mod 10)"
        by (simp_all add: str_nat.simps [of n] str_nat.simps [of m])
      from 1(1) [OF n eq] have "n div 10 = m div 10" .
      moreover from d have "n mod 10 = m mod 10"
        using digit_char_inj [of "n mod 10" "m mod 10"] by simp
      ultimately show ?thesis
        by (metis div_mult_mod_eq)
    qed
  qed
qed

lemma split_at_last_colon:
  assumes "h @ CHR '':'' # s = h' @ CHR '':'' # s'"
    and "CHR '':'' \<notin> set s" and "CHR '':'' \<notin> set s'"
  shows "h = h' \<and> s = s'"
proof -
  have "rev s @ CHR '':'' # rev h = rev s' @ CHR '':'' # rev h'"
    using arg_cong [OF assms(1), of rev] by simp
  moreover have "takeWhile (\<lambda>c. c \<noteq> CHR '':'') (rev s @ CHR '':'' # rev h) = rev s"
    using assms(2) by (auto simp: takeWhile_tail)
  moreover have "takeWhile (\<lambda>c. c \<noteq> CHR '':'') (rev s' @ CHR '':'' # rev h') = rev s'"
    using assms(3) by (auto simp: takeWhile_tail)
  ultimately have "rev s = rev s'" by simp
  then have "s = s'" by simp
  with assms(1) show ?thesis by simp
qed

lemma endpoint_key_inj:
  "endpoint_key h p = endpoint_key h' p' \<Longrightarrow> h = h' \<and> p = p'"
  unfolding endpoint_key_def
  using split_at_last_colon [of h "str_nat p" h' "str_nat p'"] str_nat_no_colon str_nat_inj
  by auto

lemma get_connection_cached:
  assumes "cached_ok r" and "get_connection srv r cfg tr = (res, r1, tr1)"
  shows "cached_ok r1 \<and> elsewhere (endpoint cfg) tr1 = elsewhere (endpoint cfg) tr
     \<and> replicas r1 = replicas r \<and> primary r1 = primary r
     \<and> (\<forall>c. res = Inr c \<longrightarrow> c = endpoint cfg)"
proof (cases "map_of (connections r) (endpoint_key (host cfg) (port cfg))")
  case None
  with assms show ?thesis
    by (auto simp: get_connection_def Let_def cached_ok_def elsewhere_def endpoint_def
        split: option.splits)
next
  case (Some c)
  then have "(endpoint_key (host cfg) (port cfg), c) \<in> set (connections r)"
    by (rule map_of_SomeD)
  with assms(1) have "endpoint_key (host cfg) (port cfg) = endpoint_key (conn_host c) (conn_port c)"
    by (auto simp: cached_ok_def list_all_iff)
  then have "conn_host c = host cfg" "conn_port c = port cfg"
    using endpoint_key_inj by metis+
  then have "c = endpoint cfg"
    by (simp add: endpoint_def)
  with Some assms show ?thesis
    by (auto simp: get_connection_def Let_def)
qed

lemma write_for_user_frame:
  assumes "cached_ok r" and "write_for_user srv r u d tr = (res, r1, tr1)"
  shows "cached_ok r1 \<and> replicas r1 = replicas r \<and> primary r1 = primary r
     \<and> elsewhere (endpoint (primary r)) tr1 = elsewhere (endpoint (primary r)) tr"
proof -
  obtain res0 r0 tr0 where g: "get_connection srv r (primary r) tr = (res0, r0, tr0)"
    by (cases "get_connection srv r (primary r) tr") auto
  from get_connection_cached [OF assms(1) g] assms(2) g show ?thesis
    by (auto simp: write_for_user_def Let_def elsewhere_def split: sum.splits option.splits)
qed

lemma read_for_user_frame:
  assumes "cached_ok r" and "read_for_user srv r u limit tr = (res, r1, tr1)"
  shows "cached_ok r1 \<and> replicas r1 = replicas r \<and> primary r1 = primary r"
proof (cases "get_replica_for_user r u")
  case (Inl e)
  with assms show ?thesis by (simp add: read_for_user_def)
next
  case (Inr cfg)
  obtain res0 r0 tr0 where g: "get_connection srv r cfg tr = (res0, r0, tr0)"
    by (cases "get_connection srv r cfg tr") auto
  from get_connection_cached [OF assms(1) g] assms(2) g Inr show ?thesis
    by (auto simp: read_for_user_def Let_def split: sum.splits option.splits)
qed

lemma call_frame:
  assumes "cached_ok r" and "call c (r, tr) = (r1, tr1)"
  shows "cached_ok r1 \<and> replicas r1 = replicas r \<and> primary r1 = primary r"
proof (cases c)
  case (Pair srv k)
  show ?thesis
  proof (cases k)
    case (GetReplica u)
    with Pair assms show ?thesis by simp
  next
    case (WriteForUser u d)
    obtain res where w: "write_for_user srv r u d tr = (res, r1, tr1)"
      using assms(2) Pair WriteForUser by (cases "write_for_user srv r u d tr") simp
    from write_for_user_frame [OF assms(1) w] show ?thesis by simp
  next
    case (ReadForUser u limit)
    obtain res where w: "read_for_user srv r u limit tr = (res, r1, tr1)"
      using assms(2) Pair ReadForUser by (cases "read_for_user srv r u limit tr") simp
    from read_for_user_frame [OF assms(1) w] show ?thesis by simp
  next
    case CloseAll
    with Pair assms show ?thesis by (simp add: close_all_def cached_ok_def)
  qed
qed

lemma calls_frame:
  "cached_ok r \<Longrightarrow> calls cs (r, tr) = (r1, tr1) \<Longrightarrow>
     cached_ok r1 \<and> replicas r1 = replicas r \<and> primary r1 = primary r"
proof (induction cs arbitrary: r tr)
  case Nil
  then show ?case by (simp add: calls_def)
next
  case (Cons c cs)
  obtain r0 tr0 where c: "call c (r, tr) = (r0, tr0)"
    by (cases "call c (r, tr)") auto
  from call_frame [OF Cons.prems(1) c]
  have r0: "cached_ok r0" "replicas r0 = replicas r" "primary r0 = primary r" by simp_all
  from Cons.prems(2) c have "calls cs (r0, tr0) = (r1, tr1)"
    by (simp add: calls_def)
  from Cons.IH [OF r0(1) this] r0 show ?case by simp
qed

lemma cached_ok_init: "cached_ok StickySessionRouter_init"
  by (simp add: cached_ok_def StickySessionRouter_init_def)

lemma cached_ok_reachable: "cached_ok (fst (calls cs (StickySessionRouter_init, tr)))"
  using calls_frame [OF cached_ok_init, of cs tr]
  by (cases "calls cs (StickySessionRouter_init, tr)") simp

subsection \<open>No call changes the configuration\<close>

lemma get_connection_config:
  "replicas (fst (snd (get_connection srv r cfg tr))) = replicas r
   \<and> primary (fst (snd (get_connection srv r cfg tr))) = primary r"
  by (simp add: get_connection_def Let_def split: option.splits)

lemma write_for_user_config:
  "replicas (fst (snd (write_for_user srv r u d tr))) = replicas r
   \<and> primary (fst (snd (write_for_user srv r u d tr))) = primary r"
  using get_connection_config [of srv r "primary r" tr]
  by (cases "get_connection srv r (primary r) tr")
     (auto simp: write_for_user_def Let_def split: sum.splits option.splits)

lemma read_for_user_config:
  "replicas (fst (snd (read_for_user srv r u limit tr))) = replicas r
   \<and> primary (fst (snd (read_for_user srv r u limit tr))) = primary r"
proof (cases "get_replica_for_user r u")
  case (Inl e)
  then show ?thesis by (simp add: read_for_user_def)
next
  case (Inr cfg)
  then show ?thesis
    using get_connection_config [of srv r cfg tr]
    by (cases "get_connection srv r cfg tr")
       (auto simp: read_for_user_def Let_def split: sum.splits option.splits)
qed

lemma call_config:
  "replicas (fst (call c (r, tr))) = replicas r \<and> primary (fst (call c (r, tr))) = primary r"
proof (cases c)
  case (Pair srv k)
  then show ?thesis
    using write_for_user_config read_for_user_config
    by (cases k) (simp_all add: close_all_def)
qed

lemma calls_config:
  "replicas (fst (calls cs (r, tr))) = replicas r \<and> primary (fst (calls cs (r, tr))) = primary r"
proof (induction cs arbitrary: r tr)
  case Nil
  then show ?case by (simp add: calls_def)
next
  case (Cons c cs)
  obtain r0 tr0 where c: "call c (r, tr) = (r0, tr0)"
    by (cases "call c (r, tr)") auto
  then have "calls (c # cs) (r, tr) = calls cs (r0, tr0)"
    by (simp add: calls_def)
  moreover from c call_config [of c r tr] have "replicas r0 = replicas r" "primary r0 = primary r"
    by simp_all
  ultimately show ?case using Cons.IH [of r0 tr0] by simp
qed

lemma md5_int_alice: "md5_int ''alice'' = 132283552702735894323332391932430538300"
  by code_simp

lemma str_nat_5432: "str_nat 5432 = ''5432''"
  by code_simp

lemma str_nat_5433: "str_nat 5433 = ''5433''"
  by code_simp

subsection \<open>Choosing the replica\<close>

text \<open>
  Claim C5 says that choosing a replica from an empty set raises a
  \<^verbatim>\<open>ConfigurationError\<close> before anything is hashed.  The code has no such error
  and no such check: over an empty list the modulo raises \<^verbatim>\<open>ZeroDivisionError\<close>.
\<close>

theorem no_replicas_zero_division:
  "get_replica_for_user (StickySessionRouter_init\<lparr>replicas := []\<rparr>) ''alice'' = Inl ZeroDivisionError"
  by (simp add: get_replica_for_user_def)

text \<open>
  Claim C5 as the code has it: \<^verbatim>\<open>get_replica_for_user\<close> returns the replica at
  index \<open>md5 mod N\<close>, which lies within the list, whenever the list is not empty,
  and raises \<^verbatim>\<open>ZeroDivisionError\<close> when it is; the list of the router as it is
  constructed holds two replicas and no call of the router changes it, so that it is
  never empty.
\<close>

theorem get_replica_for_user_total:
  "get_replica_for_user r user_id =
     (if replicas r = [] then Inl ZeroDivisionError
      else Inr (replicas r ! nat (md5_int user_id mod int (length (replicas r)))))
   \<and> (replicas r \<noteq> [] \<longrightarrow> nat (md5_int user_id mod int (length (replicas r))) < length (replicas r))
   \<and> replicas (fst (calls cs (StickySessionRouter_init, tr))) \<noteq> []"
proof -
  have "replicas r \<noteq> [] \<longrightarrow> nat (md5_int user_id mod int (length (replicas r))) < length (replicas r)"
  proof
    assume "replicas r \<noteq> []"
    then have "0 < int (length (replicas r))" by simp
    then have "0 \<le> md5_int user_id mod int (length (replicas r))"
      and "md5_int user_id mod int (length (replicas r)) < int (length (replicas r))"
      by simp_all
    then show "nat (md5_int user_id mod int (length (replicas r))) < length (replicas r)"
      by linarith
  qed
  moreover have "replicas (fst (calls cs (StickySessionRouter_init, tr))) \<noteq> []"
    using calls_config [of cs StickySessionRouter_init tr]
    by (simp add: StickySessionRouter_init_def)
  ultimately show ?thesis
    by (simp add: get_replica_for_user_def Let_def)
qed

theorem get_replica_for_user_total_witness:
  "get_replica_for_user StickySessionRouter_init ''alice'' =
     Inr \<lparr>host = ''localhost'', port = 5433, name = Some ''replica1''\<rparr>"
  using get_replica_for_user_total [of StickySessionRouter_init "''alice''" "[]" "[]"]
  by (simp add: StickySessionRouter_init_def md5_int_alice)

text \<open>
  Claim C6: for a fixed set of replicas and a fixed key, \<^verbatim>\<open>get_replica_for_user\<close>
  returns the same replica at every call, whatever calls of the router (lookups,
  writes, reads, closing, failed or not) happened in between.
\<close>

theorem get_replica_for_user_sticky:
  "get_replica_for_user (fst (calls cs (r, tr))) user_id = get_replica_for_user r user_id"
  using calls_config [of cs r tr] by (simp add: get_replica_for_user_def)

subsection \<open>Writes\<close>

lemma write_for_user_trace:
  assumes "cached_ok r"
  shows "\<exists>new. snd (snd (write_for_user srv r u d tr)) = tr @ new
           \<and> elsewhere (endpoint (primary r)) new = []"
proof -
  obtain res0 r0 tr0 where g: "get_connection srv r (primary r) tr = (res0, r0, tr0)"
    by (cases "get_connection srv r (primary r) tr") auto
  have c: "\<forall>c. res0 = Inr c \<longrightarrow> c = endpoint (primary r)"
    using get_connection_cached [OF assms g] by simp
  have "tr0 = tr \<or> tr0 = tr @ [Connect (endpoint (primary r))]"
    using g by (auto simp: get_connection_def Let_def split: option.splits)
  then obtain pre where pre: "tr0 = tr @ pre" "elsewhere (endpoint (primary r)) pre = []"
    by (auto simp: elsewhere_def)
  show ?thesis
  proof (cases res0)
    case (Inl e)
    with g pre show ?thesis by (simp add: write_for_user_def)
  next
    case (Inr cn)
    with c have cn: "cn = endpoint (primary r)" by simp
    show ?thesis
      using g Inr cn pre
      by (auto simp: write_for_user_def Let_def elsewhere_def split: sum.splits option.splits)
  qed
qed

text \<open>
  Claim C7: in each of the three patterns every event of a write (connecting, the
  insert, the commit, the query for the position) is on the connection to the
  primary, whoever the user and whatever the outcome; and the primary of each
  pattern, as constructed, is none of its replicas.  For the sticky router this rests
  on its dictionary of connections being filed under the right keys, which holds in
  every state the router reaches.
\<close>

theorem writes_on_primary:
  assumes "cached_ok r"
  shows "(\<exists>new. snd (snd (DatabaseClient_write_data srv c1 d now tr)) = tr @ new
            \<and> elsewhere (primary_conn c1) new = [])
     \<and> (\<exists>new. snd (snd (SmartDatabaseClient_write_data srv replica_is_caught_up_raises d tr)) = tr @ new
            \<and> elsewhere (primary_conn replica_is_caught_up_raises) new = [])
     \<and> (\<exists>new. snd (snd (write_for_user srv r u d tr)) = tr @ new
            \<and> elsewhere (endpoint (primary r)) new = [])
     \<and> primary_conn DatabaseClient_init \<noteq> replica_conn DatabaseClient_init
     \<and> primary_conn SmartDatabaseClient_init \<noteq> replica_conn SmartDatabaseClient_init
     \<and> endpoint (primary StickySessionRouter_init)
           \<notin> set (map endpoint (replicas StickySessionRouter_init))"
proof -
  have "\<exists>new. snd (snd (DatabaseClient_write_data srv c1 d now tr)) = tr @ new
            \<and> elsewhere (primary_conn c1) new = []"
    by (auto simp: DatabaseClient_write_data_def Let_def elsewhere_def
        split: sum.splits option.splits)
  moreover have "\<exists>new. snd (snd (SmartDatabaseClient_write_data srv replica_is_caught_up_raises d tr)) = tr @ new
            \<and> elsewhere (primary_conn replica_is_caught_up_raises) new = []"
    by (auto simp: SmartDatabaseClient_write_data_def record_write_lsn_def Let_def elsewhere_def
        split: sum.splits option.splits)
  moreover have "primary_conn DatabaseClient_init \<noteq> replica_conn DatabaseClient_init"
    by (simp add: DatabaseClient_init_def)
  moreover have "primary_conn SmartDatabaseClient_init \<noteq> replica_conn SmartDatabaseClient_init"
    by (simp add: SmartDatabaseClient_init_def)
  moreover have "endpoint (primary StickySessionRouter_init)
           \<notin> set (map endpoint (replicas StickySessionRouter_init))"
    by (simp add: StickySessionRouter_init_def endpoint_def)
  ultimately show ?thesis
    using write_for_user_trace [OF assms] by blast
qed

theorem writes_on_primary_witness:
  "cached_ok (StickySessionRouter_init\<lparr>connections :=
       [(''localhost:5433'', \<lparr>conn_host = ''localhost'', conn_port = 5433\<rparr>)]\<rparr>)
   \<and> snd (snd (write_for_user (cluster (\<lambda>c. False) ''0/3000060'' None)
        (StickySessionRouter_init\<lparr>connections :=
           [(''localhost:5433'', \<lparr>conn_host = ''localhost'', conn_port = 5433\<rparr>)]\<rparr>)
        ''alice'' ''Hello World'' []))
     = [Connect \<lparr>conn_host = ''localhost'', conn_port = 5432\<rparr>,
        Execute \<lparr>conn_host = ''localhost'', conn_port = 5432\<rparr>
          (InsertReturningId ''User-alice: Hello World''),
        Commit \<lparr>conn_host = ''localhost'', conn_port = 5432\<rparr>]"
proof -
  have ok: "cached_ok (StickySessionRouter_init\<lparr>connections :=
       [(''localhost:5433'', \<lparr>conn_host = ''localhost'', conn_port = 5433\<rparr>)]\<rparr>)"
    by (simp add: cached_ok_def endpoint_key_def str_nat_5433)
  show ?thesis
    using ok writes_on_primary [OF ok, where srv = "cluster (\<lambda>c. False) ''0/3000060'' None"
        and u = "''alice''" and d = "''Hello World''" and tr = "[]"]
    by (simp add: write_for_user_def get_connection_def endpoint_key_def endpoint_def
        str_nat_5432 cluster_def StickySessionRouter_init_def user_data_def)
qed

subsection \<open>The rows of a user\<close>

lemma pg_like_prefix:
  "CHR 0x5C \<notin> set u \<Longrightarrow> pg_like p t \<Longrightarrow> pg_like (u @ p) (u @ t)"
proof (induction u)
  case Nil
  then show ?case by simp
next
  case (Cons c u)
  then have "pg_like (u @ p) (u @ t)" by simp
  with Cons.prems(1) show ?case by auto
qed

lemma pg_like_percent: "pg_like ''%'' t"
  by (induction t) auto

lemma own_rows_match:
  assumes "CHR 0x5C \<notin> set u"
  shows "pg_like (user_pattern u) (user_data u d)"
proof -
  have "pg_like ''%'' ('' '' @ d)" by (rule pg_like_percent)
  then have "pg_like '':%'' ('': '' @ d)" by simp
  then have "pg_like (u @ '':%'') (u @ '': '' @ d)"
    using assms pg_like_prefix by blast
  then have "pg_like (''User-'' @ u @ '':%'') (''User-'' @ u @ '': '' @ d)"
    using pg_like_prefix [of "''User-''"] by simp
  then show ?thesis by (simp add: user_pattern_def user_data_def)
qed

text \<open>
  Claim C8 says that for every user id the string a write stores matches the pattern
  of that user's read.  A backslash in the user id is taken by \<^verbatim>\<open>LIKE\<close> as an
  escape: for the user id made of \<^verbatim>\<open>a\<close>, a backslash and \<^verbatim>\<open>b\<close>, the pattern
  asks for a row that starts with \<^verbatim>\<open>User-ab:\<close>, and the stored row, which has the
  backslash, does not match.
\<close>

theorem own_row_not_matched:
  "\<not> pg_like (user_pattern [CHR ''a'', CHR 0x5C, CHR ''b''])
       (user_data [CHR ''a'', CHR 0x5C, CHR ''b''] ''x'')"
  by (simp add: user_pattern_def user_data_def)

end
